theory Spec2Isabelle
  imports Main
begin

section \<open>The Mapper nerve of gtda/mapper/nerve.py\<close>

text \<open>
  The theory embeds \<^verbatim>\<open>_fixed_points\<close>, \<^verbatim>\<open>Nerve._generate_edge_data\<close> and
  \<^verbatim>\<open>Nerve.fit_transform\<close>. Python lists are HOL lists, the indices of data elements
  are \<open>int\<close>, vertex indices and lengths are \<open>nat\<close>, and \<open>min_intersection\<close> is an
  unbounded Python integer, hence \<open>int\<close>. An exception is a value of \<open>error\<close>; a
  \<^verbatim>\<open>while\<close> loop that may run forever returns \<open>None\<close> when it does.
\<close>

subsection \<open>Data\<close>

datatype error = StopIteration | IndexError | TypeError

text \<open>The constructor arguments of \<^verbatim>\<open>Nerve.__init__\<close>.\<close>

record params =
  min_intersection :: int
  store_edge_elements :: bool
  contract_nodes :: bool

text \<open>
  The four values returned by \<^verbatim>\<open>_generate_edge_data\<close>. \<open>mapping\<close> is \<open>None\<close>
  exactly when the source sets \<^verbatim>\<open>mapping = None\<close>.
\<close>

record edge_data =
  node_index_pairs :: "(nat \<times> nat) list"
  weights :: "nat list"
  intersections :: "int list list"
  mapping :: "nat list option"

text \<open>
  The \<^verbatim>\<open>igraph.Graph\<close> object, as far as the source uses it. A vertex is its row of
  attributes; \<open>None\<close> is the row of a vertex all of whose attributes are Python's
  \<^verbatim>\<open>None\<close> (a vertex that \<^verbatim>\<open>contract_vertices\<close> creates with nothing merged into it). An
  edge carries its endpoints, its \<^verbatim>\<open>"weight"\<close> and, when that attribute was set, its
  \<^verbatim>\<open>"edge_elements"\<close>.
\<close>

record ('p, 'c) vertex =
  pullback_set_label :: 'p
  partial_cluster_label :: 'c
  node_elements :: "int list"

record edge =
  endpoints :: "nat \<times> nat"
  weight :: nat
  edge_elements :: "int list option"

record ('p, 'c) graph =
  vs :: "('p, 'c) vertex option list"
  es :: "edge list"

subsection \<open>\<^verbatim>\<open>_fixed_points\<close>\<close>

text \<open>
  The \<^verbatim>\<open>while j != k\<close> loop, entered with the current \<open>j\<close> and \<open>k\<close>. A list read out of
  range raises \<^verbatim>\<open>IndexError\<close> (the entries are naturals, so Python's negative indexing
  does not arise).
\<close>

partial_function (option) fixed_points_while :: "nat list \<Rightarrow> nat \<Rightarrow> nat \<Rightarrow> (error + nat) option"
where
  "fixed_points_while mp j k =
     (if j \<noteq> k then
        (if j < length mp then
           (if mp ! j < length mp then
              (if mp ! (mp ! j) < length mp
               then fixed_points_while mp (mp ! j) (mp ! (mp ! (mp ! j)))
               else Some (Inl IndexError))
            else Some (Inl IndexError))
         else Some (Inl IndexError))
      else Some (Inr j))"

declare fixed_points_while.simps [code]

text \<open>The \<^verbatim>\<open>for i in range(len(mapping))\<close> loop, with \<open>terminal_states\<close> as accumulator.\<close>

fun fixed_points_for :: "nat list \<Rightarrow> nat list \<Rightarrow> nat list \<Rightarrow> (error + nat list) option" where
  "fixed_points_for mp [] terminal_states = Some (Inr terminal_states)"
| "fixed_points_for mp (i # rest) terminal_states =
     (if i < length mp then
        (case fixed_points_while mp i (mp ! i) of
           None \<Rightarrow> None
         | Some (Inl e) \<Rightarrow> Some (Inl e)
         | Some (Inr j) \<Rightarrow> fixed_points_for mp rest (terminal_states @ [j]))
      else Some (Inl IndexError))"

definition fixed_points :: "nat list \<Rightarrow> (error + nat list) option" where
  "fixed_points mp = fixed_points_for mp [0..<length mp] []"

subsection \<open>\<^verbatim>\<open>_generate_edge_data\<close>\<close>

text \<open>
  \<^verbatim>\<open>np.intersect1d\<close> returns the sorted, unique values that are in both arrays.
\<close>

definition intersect1d :: "int list \<Rightarrow> int list \<Rightarrow> int list" where
  "intersect1d ar1 ar2 = sort (remdups (filter (\<lambda>x. x \<in> set ar2) ar1))"

text \<open>\<^verbatim>\<open>itertools.combinations(xs, 2)\<close>: all pairs of positions, in lexicographic order.\<close>

fun combinations2 :: "'a list \<Rightarrow> ('a \<times> 'a) list" where
  "combinations2 [] = []"
| "combinations2 (x # xs) = map (Pair x) xs @ combinations2 xs"

text \<open>
  The body of the first loop (\<^verbatim>\<open>not self.store_edge_elements\<close>). \<^verbatim>\<open>continue\<close> and falling
  off the end of the \<^verbatim>\<open>if\<close> chain both leave the state as it is.
\<close>

definition scan_step_plain ::
  "bool \<Rightarrow> int \<Rightarrow> (nat \<times> int list) \<times> (nat \<times> int list) \<Rightarrow> edge_data \<Rightarrow> edge_data" where
  "scan_step_plain contract min_inter node_tuple st =
     (case node_tuple of ((node_1_idx, node_1_elements), (node_2_idx, node_2_elements)) \<Rightarrow>
        let intersection = intersect1d node_1_elements node_2_elements;
            intersection_size = length intersection
        in if contract then
             (if intersection_size = length node_2_elements then
                st\<lparr>mapping := map_option (\<lambda>m. m[node_2_idx := node_1_idx]) (mapping st)\<rparr>
              else if intersection_size = length node_1_elements then
                st\<lparr>mapping := map_option (\<lambda>m. m[node_1_idx := node_2_idx]) (mapping st)\<rparr>
              else if min_inter \<le> int intersection_size then
                st\<lparr>node_index_pairs := node_index_pairs st @ [(node_1_idx, node_2_idx)],
                   weights := weights st @ [intersection_size]\<rparr>
              else st)
           else if min_inter \<le> int intersection_size then
             st\<lparr>node_index_pairs := node_index_pairs st @ [(node_1_idx, node_2_idx)],
                weights := weights st @ [intersection_size]\<rparr>
           else st)"

text \<open>The body of the second loop (\<^verbatim>\<open>self.store_edge_elements\<close>).\<close>

definition scan_step_store ::
  "bool \<Rightarrow> int \<Rightarrow> (nat \<times> int list) \<times> (nat \<times> int list) \<Rightarrow> edge_data \<Rightarrow> edge_data" where
  "scan_step_store contract min_inter node_tuple st =
     (case node_tuple of ((node_1_idx, node_1_elements), (node_2_idx, node_2_elements)) \<Rightarrow>
        let intersection = intersect1d node_1_elements node_2_elements;
            intersection_size = length intersection
        in if contract then
             (if intersection_size = length node_2_elements then
                st\<lparr>mapping := map_option (\<lambda>m. m[node_2_idx := node_1_idx]) (mapping st)\<rparr>
              else if intersection_size = length node_1_elements then
                st\<lparr>mapping := map_option (\<lambda>m. m[node_1_idx := node_2_idx]) (mapping st)\<rparr>
              else if min_inter \<le> int intersection_size then
                st\<lparr>node_index_pairs := node_index_pairs st @ [(node_1_idx, node_2_idx)],
                   weights := weights st @ [intersection_size],
                   intersections := intersections st @ [intersection]\<rparr>
              else st)
           else if min_inter \<le> int intersection_size then
             st\<lparr>node_index_pairs := node_index_pairs st @ [(node_1_idx, node_2_idx)],
                weights := weights st @ [intersection_size],
                intersections := intersections st @ [intersection]\<rparr>
           else st)"

definition generate_edge_data :: "params \<Rightarrow> int list list \<Rightarrow> edge_data" where
  "generate_edge_data p nes =
     (let node_tuples = combinations2 (enumerate 0 nes);
          init = \<lparr>node_index_pairs = [], weights = [], intersections = [],
                  mapping = (if contract_nodes p then Some [0..<length nes] else None)\<rparr>
      in if \<not> store_edge_elements p
         then fold (scan_step_plain (contract_nodes p) (min_intersection p)) node_tuples init
         else fold (scan_step_store (contract_nodes p) (min_intersection p)) node_tuples init)"

subsection \<open>The igraph operations that \<^verbatim>\<open>fit_transform\<close> calls\<close>

text \<open>
  \<^verbatim>\<open>Graph.contract_vertices(mapping, combine_attrs="first")\<close>: old vertex \<open>i\<close> becomes
  vertex \<open>mapping[i]\<close>; the new graph has \<open>max(mapping) + 1\<close> vertices; every edge is kept,
  with its attributes, between the images of its endpoints (self-loops and multiple
  edges are not removed); a new vertex takes the attributes of the first (lowest) old
  vertex mapped to it, and \<^verbatim>\<open>None\<close> when no vertex is mapped to it. igraph rejects a
  mapping whose length is not the number of vertices; \<^verbatim>\<open>fit_transform\<close> always passes one
  entry per vertex.
\<close>

definition contract_vertices :: "nat list \<Rightarrow> ('p, 'c) graph \<Rightarrow> ('p, 'c) graph" where
  "contract_vertices mp g =
     \<lparr>vs = map (\<lambda>t. case filter (\<lambda>i. mp ! i = t) [0..<length (vs g)] of
                        [] \<Rightarrow> None
                      | i # _ \<Rightarrow> vs g ! i)
                [0..<(if mp = [] then 0 else Suc (fold max mp 0))],
      es = map (\<lambda>e. e\<lparr>endpoints := (mp ! fst (endpoints e), mp ! snd (endpoints e))\<rparr>) (es g)\<rparr>"

text \<open>
  \<^verbatim>\<open>Graph.delete_vertices(ids)\<close>: the listed vertices and the edges incident to them are
  removed; the remaining vertices keep their order and are renumbered from 0, and the
  remaining edges keep their order and attributes.
\<close>

definition delete_vertices :: "nat list \<Rightarrow> ('p, 'c) graph \<Rightarrow> ('p, 'c) graph" where
  "delete_vertices ids g =
     (let kept = filter (\<lambda>v. v \<notin> set ids) [0..<length (vs g)];
          new_id = (\<lambda>v. length (filter (\<lambda>u. u < v) kept))
      in \<lparr>vs = map (\<lambda>v. vs g ! v) kept,
          es = map (\<lambda>e. e\<lparr>endpoints := (new_id (fst (endpoints e)), new_id (snd (endpoints e)))\<rparr>)
                 (filter (\<lambda>e. fst (endpoints e) \<notin> set ids \<and> snd (endpoints e) \<notin> set ids) (es g))\<rparr>)"

subsection \<open>\<^verbatim>\<open>fit_transform\<close>\<close>

text \<open>
  \<^verbatim>\<open>reduce(iconcat, X, [])\<close> is \<open>concat X\<close>. On an empty \<open>nodes\<close>, \<^verbatim>\<open>zip(*nodes)\<close> is an
  empty iterator and the first \<^verbatim>\<open>next\<close> raises \<^verbatim>\<open>StopIteration\<close>. The edges get their
  weights from \<open>weights\<close> and, when \<open>store_edge_elements\<close> is set, their
  \<^verbatim>\<open>"edge_elements"\<close> from \<open>intersections\<close>, position by position.
\<close>

definition fit_transform ::
  "params \<Rightarrow> ('p \<times> 'c \<times> int list) list list \<Rightarrow> (error + ('p, 'c) graph) option" where
  "fit_transform p X =
     (let nodes = concat X in
      if nodes = [] then Some (Inl StopIteration)
      else
        let nes = map (\<lambda>(pl, cl, ne). ne) nodes;
            d = generate_edge_data p nes;
            graph = \<lparr>vs = map (\<lambda>(pl, cl, ne). Some \<lparr>pullback_set_label = pl,
                                 partial_cluster_label = cl, node_elements = ne\<rparr>) nodes,
                     es = map (\<lambda>k. \<lparr>endpoints = node_index_pairs d ! k, weight = weights d ! k,
                                    edge_elements = (if store_edge_elements p
                                                     then Some (intersections d ! k) else None)\<rparr>)
                              [0..<length (node_index_pairs d)]\<rparr>
        in if contract_nodes p then
             (case mapping d of
                None \<Rightarrow> Some (Inl TypeError)
              | Some mp \<Rightarrow>
                  (case fixed_points mp of
                     None \<Rightarrow> None
                   | Some (Inl e) \<Rightarrow> Some (Inl e)
                   | Some (Inr fixed_points_mapping) \<Rightarrow>
                       let graph' = contract_vertices fixed_points_mapping graph
                       in Some (Inr (delete_vertices
                            (filter (\<lambda>i. i \<noteq> fixed_points_mapping ! i) [0..<length (vs graph')])
                            graph'))))
           else Some (Inr graph))"

subsection \<open>Notions used to state the properties\<close>

text \<open>
  One element of \<^verbatim>\<open>node_tuples\<close> is \<open>((i, elements of i), (j, elements of j))\<close>. The next
  three definitions name its index pair, its intersection and the test under which
  either loop body appends an edge for it.
\<close>

definition tuple_indices :: "(nat \<times> int list) \<times> (nat \<times> int list) \<Rightarrow> nat \<times> nat" where
  "tuple_indices t = (fst (fst t), fst (snd t))"

definition tuple_intersection :: "(nat \<times> int list) \<times> (nat \<times> int list) \<Rightarrow> int list" where
  "tuple_intersection t = intersect1d (snd (fst t)) (snd (snd t))"

definition makes_edge :: "bool \<Rightarrow> int \<Rightarrow> (nat \<times> int list) \<times> (nat \<times> int list) \<Rightarrow> bool" where
  "makes_edge contract min_inter t =
     (if contract
      then length (tuple_intersection t) \<noteq> length (snd (snd t)) \<and>
           length (tuple_intersection t) \<noteq> length (snd (fst t)) \<and>
           min_inter \<le> int (length (tuple_intersection t))
      else min_inter \<le> int (length (tuple_intersection t)))"

text \<open>What one loop iteration does to \<open>mapping\<close> when \<open>contract_nodes\<close> is set.\<close>

definition mapping_step :: "(nat \<times> int list) \<times> (nat \<times> int list) \<Rightarrow> nat list \<Rightarrow> nat list" where
  "mapping_step t mp =
     (if length (tuple_intersection t) = length (snd (snd t)) then mp[fst (snd t) := fst (fst t)]
      else if length (tuple_intersection t) = length (snd (fst t)) then mp[fst (fst t) := fst (snd t)]
      else mp)"


text \<open>The graph without the \<^verbatim>\<open>"edge_elements"\<close> edge attribute.\<close>

definition drop_edge_elements :: "('p, 'c) graph \<Rightarrow> ('p, 'c) graph" where
  "drop_edge_elements g = g\<lparr>es := map (\<lambda>e. e\<lparr>edge_elements := None\<rparr>) (es g)\<rparr>"

text \<open>The list of node elements that \<^verbatim>\<open>fit_transform\<close> passes to \<^verbatim>\<open>_generate_edge_data\<close>.\<close>

definition cover_elements :: "('p \<times> 'c \<times> int list) list list \<Rightarrow> int list list" where
  "cover_elements X = map (\<lambda>(pl, cl, ne). ne) (concat X)"

text \<open>
  The edge that \<^verbatim>\<open>fit_transform\<close> builds from one element of \<^verbatim>\<open>node_tuples\<close>, and the
  graph it holds when the scan is over, before the contraction pass.
\<close>

definition edge_of :: "bool \<Rightarrow> (nat \<times> int list) \<times> (nat \<times> int list) \<Rightarrow> edge" where
  "edge_of store t = \<lparr>endpoints = tuple_indices t, weight = length (tuple_intersection t),
      edge_elements = (if store then Some (tuple_intersection t) else None)\<rparr>"

definition uncontracted_graph :: "params \<Rightarrow> ('p \<times> 'c \<times> int list) list list \<Rightarrow> ('p, 'c) graph" where
  "uncontracted_graph p X =
     \<lparr>vs = map (\<lambda>(pl, cl, ne). Some \<lparr>pullback_set_label = pl,
                                 partial_cluster_label = cl, node_elements = ne\<rparr>) (concat X),
      es = map (edge_of (store_edge_elements p))
             (filter (makes_edge (contract_nodes p) (min_intersection p))
                (combinations2 (enumerate 0 (cover_elements X))))\<rparr>"






text \<open>The row of vertex attributes that \<^verbatim>\<open>fit_transform\<close> sets from one triple of the cover.\<close>

definition vertex_of :: "'p \<times> 'c \<times> int list \<Rightarrow> ('p, 'c) vertex" where
  "vertex_of node = (case node of (pl, cl, ne) \<Rightarrow>
     \<lparr>pullback_set_label = pl, partial_cluster_label = cl, node_elements = ne\<rparr>)"



section \<open>Properties\<close>

subsection \<open>The pair scan\<close>



lemma set_intersect1d: "set (intersect1d a b) = set a \<inter> set b"
  by (auto simp: intersect1d_def)

lemma plain_commutes_intersections:
  "scan_step_plain c m t (st\<lparr>intersections := x\<rparr>) = (scan_step_plain c m t st)\<lparr>intersections := x\<rparr>"
  by (simp add: scan_step_plain_def Let_def split: prod.splits)

lemma store_step_eq:
  "scan_step_store c m t st =
     (scan_step_plain c m t st)\<lparr>intersections :=
        intersections st @ (if makes_edge c m t then [tuple_intersection t] else [])\<rparr>"
  by (simp add: scan_step_store_def scan_step_plain_def makes_edge_def tuple_intersection_def
      Let_def split: prod.splits)

lemma fold_store_eq:
  "fold (scan_step_store c m) ts st =
     (fold (scan_step_plain c m) ts st)\<lparr>intersections :=
        intersections st @ map tuple_intersection (filter (makes_edge c m) ts)\<rparr>"
proof (induction ts arbitrary: st)
  case Nil
  then show ?case by simp
next
  case (Cons t ts)
  have plain_fold: "\<And>x s. fold (scan_step_plain c m) ts (s\<lparr>intersections := x\<rparr>)
      = (fold (scan_step_plain c m) ts s)\<lparr>intersections := x\<rparr>"
  proof -
    fix x s show "fold (scan_step_plain c m) ts (s\<lparr>intersections := x\<rparr>)
      = (fold (scan_step_plain c m) ts s)\<lparr>intersections := x\<rparr>"
      by (induction ts arbitrary: s) (simp_all add: plain_commutes_intersections)
  qed
  have "fold (scan_step_store c m) (t # ts) st
      = fold (scan_step_store c m) ts (scan_step_store c m t st)" by simp
  also have "\<dots> = (fold (scan_step_plain c m) ts (scan_step_store c m t st))\<lparr>intersections :=
        intersections (scan_step_store c m t st)
          @ map tuple_intersection (filter (makes_edge c m) ts)\<rparr>"
    by (rule Cons.IH)
  also have "\<dots> = (fold (scan_step_plain c m) (t # ts) st)\<lparr>intersections :=
        intersections st @ map tuple_intersection (filter (makes_edge c m) (t # ts))\<rparr>"
    by (simp add: store_step_eq plain_fold)
  finally show ?case .
qed

lemma step_plain_pairs:
  "node_index_pairs (scan_step_plain c m t st) =
     node_index_pairs st @ (if makes_edge c m t then [tuple_indices t] else [])"
  by (simp add: scan_step_plain_def makes_edge_def tuple_intersection_def tuple_indices_def
      Let_def split: prod.splits)

lemma step_plain_weights:
  "weights (scan_step_plain c m t st) =
     weights st @ (if makes_edge c m t then [length (tuple_intersection t)] else [])"
  by (simp add: scan_step_plain_def makes_edge_def tuple_intersection_def
      Let_def split: prod.splits)

lemma step_plain_intersections:
  "intersections (scan_step_plain c m t st) = intersections st"
  by (simp add: scan_step_plain_def Let_def split: prod.splits)

lemma step_plain_mapping:
  "mapping (scan_step_plain c m t st) =
     (if c then map_option (mapping_step t) (mapping st) else mapping st)"
  by (cases "mapping st")
     (simp_all add: scan_step_plain_def mapping_step_def tuple_intersection_def
      Let_def split: prod.splits)

lemma fold_plain_pairs:
  "node_index_pairs (fold (scan_step_plain c m) ts st) =
     node_index_pairs st @ map tuple_indices (filter (makes_edge c m) ts)"
  by (induction ts arbitrary: st) (simp_all add: step_plain_pairs)

lemma fold_plain_weights:
  "weights (fold (scan_step_plain c m) ts st) =
     weights st @ map (\<lambda>t. length (tuple_intersection t)) (filter (makes_edge c m) ts)"
  by (induction ts arbitrary: st) (simp_all add: step_plain_weights)

lemma fold_plain_intersections:
  "intersections (fold (scan_step_plain c m) ts st) = intersections st"
  by (induction ts arbitrary: st) (simp_all add: step_plain_intersections)

lemma fold_plain_mapping:
  "mapping (fold (scan_step_plain c m) ts st) =
     (if c then map_option (fold mapping_step ts) (mapping st) else mapping st)"
proof (induction ts arbitrary: st)
  case Nil
  then show ?case by (cases "mapping st") simp_all
next
  case (Cons t ts)
  then show ?case by (cases "mapping st") (simp_all add: step_plain_mapping)
qed

lemma ged_pairs:
  "node_index_pairs (generate_edge_data p nes) =
     map tuple_indices (filter (makes_edge (contract_nodes p) (min_intersection p))
        (combinations2 (enumerate 0 nes)))"
  by (simp add: generate_edge_data_def Let_def fold_store_eq fold_plain_pairs)

lemma ged_weights:
  "weights (generate_edge_data p nes) =
     map (\<lambda>t. length (tuple_intersection t)) (filter (makes_edge (contract_nodes p) (min_intersection p))
        (combinations2 (enumerate 0 nes)))"
  by (simp add: generate_edge_data_def Let_def fold_store_eq fold_plain_weights)

lemma ged_intersections:
  "intersections (generate_edge_data p nes) =
     (if store_edge_elements p
      then map tuple_intersection (filter (makes_edge (contract_nodes p) (min_intersection p))
        (combinations2 (enumerate 0 nes)))
      else [])"
  by (simp add: generate_edge_data_def Let_def fold_store_eq fold_plain_intersections)

lemma ged_mapping:
  "mapping (generate_edge_data p nes) =
     (if contract_nodes p
      then Some (fold mapping_step (combinations2 (enumerate 0 nes)) [0..<length nes])
      else None)"
  by (simp add: generate_edge_data_def Let_def fold_store_eq fold_plain_mapping)


subsection \<open>The pairs of vertices and the graph before contraction\<close>





lemma map_nth_upt3:
  "length ys = length xs \<Longrightarrow> 
   map (\<lambda>k. f (xs ! k) (ys ! k)) [0..<length xs] = map (\<lambda>(x, y). f x y) (zip xs ys)"
  by (rule nth_equalityI) auto

lemma fit_transform_eq:
  "fit_transform p X =
     (if concat X = [] then Some (Inl StopIteration)
      else if contract_nodes p then
        (case fixed_points (fold mapping_step (combinations2 (enumerate 0 (cover_elements X)))
                 [0..<length (cover_elements X)]) of
           None \<Rightarrow> None
         | Some (Inl e) \<Rightarrow> Some (Inl e)
         | Some (Inr fpm) \<Rightarrow>
             Some (Inr (delete_vertices
                 (filter (\<lambda>i. i \<noteq> fpm ! i) [0..<length (vs (contract_vertices fpm (uncontracted_graph p X)))])
                 (contract_vertices fpm (uncontracted_graph p X)))))
      else Some (Inr (uncontracted_graph p X)))"
proof -
  let ?F = "filter (makes_edge (contract_nodes p) (min_intersection p))
                (combinations2 (enumerate 0 (cover_elements X)))"
  let ?d = "generate_edge_data p (cover_elements X)"
  have es: "map (\<lambda>k. \<lparr>endpoints = node_index_pairs ?d ! k, weight = weights ?d ! k,
                       edge_elements = (if store_edge_elements p
                                        then Some (intersections ?d ! k) else None)\<rparr>)
               [0..<length (node_index_pairs ?d)]
        = map (edge_of (store_edge_elements p)) ?F"
    by (rule nth_equalityI)
       (simp_all add: ged_pairs ged_weights ged_intersections edge_of_def)
  show ?thesis
    unfolding fit_transform_def Let_def cover_elements_def [symmetric] es uncontracted_graph_def
    by (simp add: ged_mapping)
qed


subsection \<open>Without contraction\<close>




lemma fit_transform_plain:
  "\<not> contract_nodes p \<Longrightarrow> concat X \<noteq> [] \<Longrightarrow> fit_transform p X = Some (Inr (uncontracted_graph p X))"
  by (simp add: fit_transform_eq)





lemma fit_transform_returns_plain:
  assumes "fit_transform p X = Some (Inr g)" and "\<not> contract_nodes p"
  shows "g = uncontracted_graph p X"
  using assms by (simp add: fit_transform_eq split: if_splits)

lemma makes_edge_mono:
  "m1 \<le> m2 \<Longrightarrow> makes_edge c m2 t \<Longrightarrow> makes_edge c m1 t"
  by (auto simp: makes_edge_def split: if_splits)

lemma filter_stronger:
  assumes "\<And>x. P x \<Longrightarrow> Q x"
  shows "filter P xs = filter P (filter Q xs)"
  using assms by (induction xs) auto

text \<open>
  Claim C7. With \<open>contract_nodes\<close> false and the cover fixed, raising \<open>min_intersection\<close>
  from \<open>m1\<close> to \<open>m2\<close> can only remove edges: every edge of the graph for \<open>m2\<close>, with its
  weight and attributes, is an edge of the graph for \<open>m1\<close>, and the number of edges does
  not grow. The thresholds need not be positive.
\<close>

theorem edges_antitone_in_min_intersection:
  assumes "\<not> contract_nodes p" and "m1 \<le> m2"
    and "fit_transform (p\<lparr>min_intersection := m1\<rparr>) X = Some (Inr g1)"
    and "fit_transform (p\<lparr>min_intersection := m2\<rparr>) X = Some (Inr g2)"
  shows "set (es g2) \<subseteq> set (es g1) \<and> length (es g2) \<le> length (es g1)"
proof -
  let ?ts = "combinations2 (enumerate 0 (cover_elements X))"
  have g1: "es g1 = map (edge_of (store_edge_elements p)) (filter (makes_edge False m1) ?ts)"
    using fit_transform_returns_plain [OF assms(3)] assms(1) by (simp add: uncontracted_graph_def)
  have g2: "es g2 = map (edge_of (store_edge_elements p)) (filter (makes_edge False m2) ?ts)"
    using fit_transform_returns_plain [OF assms(4)] assms(1) by (simp add: uncontracted_graph_def)
  have f: "filter (makes_edge False m2) ?ts = filter (makes_edge False m2) (filter (makes_edge False m1) ?ts)"
    by (rule filter_stronger) (rule makes_edge_mono [OF assms(2)])
  have "set (filter (makes_edge False m2) ?ts) \<subseteq> set (filter (makes_edge False m1) ?ts)"
    by (subst f) (rule filter_is_subset)
  then have sub: "set (es g2) \<subseteq> set (es g1)"
    unfolding g1 g2 set_map by (rule image_mono)
  have "length (filter (makes_edge False m2) ?ts) \<le> length (filter (makes_edge False m1) ?ts)"
    by (subst f) (rule length_filter_le)
  then have len: "length (es g2) \<le> length (es g1)"
    unfolding g1 g2 by simp
  from sub len show ?thesis ..
qed

theorem edges_antitone_in_min_intersection_witness:
  "\<exists>g1 g2.
     fit_transform \<lparr>min_intersection = 1, store_edge_elements = False, contract_nodes = False\<rparr>
        [[(0::int, 0::int, [1, 2, 3]), (0, 1, [2, 3, 4])], [(1, 0, [4, 5])]] = Some (Inr g1) \<and>
     fit_transform \<lparr>min_intersection = 2, store_edge_elements = False, contract_nodes = False\<rparr>
        [[(0::int, 0::int, [1, 2, 3]), (0, 1, [2, 3, 4])], [(1, 0, [4, 5])]] = Some (Inr g2) \<and>
     length (es g1) = 2 \<and> length (es g2) = 1 \<and>
     set (es g2) \<subseteq> set (es g1) \<and> length (es g2) \<le> length (es g1)"
proof -
  let ?p = "\<lparr>min_intersection = 1, store_edge_elements = False, contract_nodes = False\<rparr>"
  let ?X = "[[(0::int, 0::int, [1, 2, 3]), (0, 1, [2, 3, 4])], [(1, 0, [4, 5::int])]]"
  let ?vs = "[Some \<lparr>pullback_set_label = 0::int, partial_cluster_label = 0::int, node_elements = [1, 2, 3]\<rparr>,
              Some \<lparr>pullback_set_label = 0, partial_cluster_label = 1, node_elements = [2, 3, 4]\<rparr>,
              Some \<lparr>pullback_set_label = 1, partial_cluster_label = 0, node_elements = [4, 5]\<rparr>]"
  let ?g1 = "\<lparr>vs = ?vs, es = [\<lparr>endpoints = (0, 1), weight = 2, edge_elements = None\<rparr>,
                              \<lparr>endpoints = (1, 2), weight = 1, edge_elements = None\<rparr>]\<rparr>"
  let ?g2 = "\<lparr>vs = ?vs, es = [\<lparr>endpoints = (0, 1), weight = 2, edge_elements = None\<rparr>]\<rparr>"
  have h1: "\<not> contract_nodes ?p" by simp
  have h2: "(1::int) \<le> 2" by simp
  have h3: "fit_transform (?p\<lparr>min_intersection := 1\<rparr>) ?X = Some (Inr ?g1)" by code_simp
  have h4: "fit_transform (?p\<lparr>min_intersection := 2\<rparr>) ?X = Some (Inr ?g2)" by code_simp
  have l: "length (es ?g1) = 2 \<and> length (es ?g2) = 1" by simp
  from h3 h4 l edges_antitone_in_min_intersection [OF h1 h2 h3 h4] show ?thesis
    by (intro exI [of _ ?g1] exI [of _ ?g2]) simp
qed








subsection \<open>The two loops agree\<close>

lemma drop_edge_elements_contract:
  "drop_edge_elements (contract_vertices mp g) = contract_vertices mp (drop_edge_elements g)"
  by (auto simp: drop_edge_elements_def contract_vertices_def split: list.splits)

lemma vs_drop_edge_elements: "vs (drop_edge_elements g) = vs g"
  by (simp add: drop_edge_elements_def)

lemma drop_edge_elements_delete:
  "drop_edge_elements (delete_vertices ids g) = delete_vertices ids (drop_edge_elements g)"
  by (simp add: drop_edge_elements_def delete_vertices_def Let_def filter_map comp_def)

lemma edge_of_drop: "(edge_of s t)\<lparr>edge_elements := None\<rparr> = edge_of False t"
  by (simp add: edge_of_def)

lemma drop_edge_elements_uncontracted:
  "drop_edge_elements (uncontracted_graph p X) = uncontracted_graph (p\<lparr>store_edge_elements := False\<rparr>) X"
  by (simp add: drop_edge_elements_def uncontracted_graph_def edge_of_drop)

lemma uncontracted_store_False:
  "uncontracted_graph (p\<lparr>store_edge_elements := True\<rparr>) X\<lparr>es := map (\<lambda>e. e\<lparr>edge_elements := None\<rparr>) (es (uncontracted_graph (p\<lparr>store_edge_elements := True\<rparr>) X))\<rparr>
   = uncontracted_graph (p\<lparr>store_edge_elements := False\<rparr>) X"
  using drop_edge_elements_uncontracted [of "p\<lparr>store_edge_elements := True\<rparr>" X]
  by (simp add: drop_edge_elements_def)

lemma fit_transform_drop_edge_elements:
  "map_option (map_sum id drop_edge_elements) (fit_transform p X)
     = fit_transform (p\<lparr>store_edge_elements := False\<rparr>) X"
proof (cases "fixed_points (fold mapping_step (combinations2 (enumerate 0 (cover_elements X)))
                 [0..<length (cover_elements X)])")
  case None
  then show ?thesis
    by (simp add: fit_transform_eq drop_edge_elements_uncontracted)
next
  case (Some r)
  show ?thesis
  proof (cases r)
    case (Inl e)
    with Some show ?thesis by (simp add: fit_transform_eq drop_edge_elements_uncontracted)
  next
    case (Inr fpm)
    have len: "length (vs (contract_vertices fpm (uncontracted_graph p X)))
       = length (vs (contract_vertices fpm (uncontracted_graph (p\<lparr>store_edge_elements := False\<rparr>) X)))"
      by (simp add: contract_vertices_def)
    from Some Inr show ?thesis
      by (simp add: fit_transform_eq drop_edge_elements_delete drop_edge_elements_contract
          drop_edge_elements_uncontracted len)
  qed
qed

text \<open>
  Claim C9. The two loops of \<^verbatim>\<open>_generate_edge_data\<close> return the same index pairs, weights
  and mapping, and the graph built with \<open>store_edge_elements\<close> is, once the
  \<^verbatim>\<open>"edge_elements"\<close> attribute is dropped, the graph built without it (the same outcome
  also when \<^verbatim>\<open>fit_transform\<close> raises or does not return).
\<close>

theorem store_edge_elements_only_adds_attribute:
  "node_index_pairs (generate_edge_data (p\<lparr>store_edge_elements := True\<rparr>) nes)
     = node_index_pairs (generate_edge_data (p\<lparr>store_edge_elements := False\<rparr>) nes) \<and>
   weights (generate_edge_data (p\<lparr>store_edge_elements := True\<rparr>) nes)
     = weights (generate_edge_data (p\<lparr>store_edge_elements := False\<rparr>) nes) \<and>
   mapping (generate_edge_data (p\<lparr>store_edge_elements := True\<rparr>) nes)
     = mapping (generate_edge_data (p\<lparr>store_edge_elements := False\<rparr>) nes) \<and>
   map_option (map_sum id drop_edge_elements) (fit_transform (p\<lparr>store_edge_elements := True\<rparr>) X)
     = fit_transform (p\<lparr>store_edge_elements := False\<rparr>) X"
  using fit_transform_drop_edge_elements [of "p\<lparr>store_edge_elements := True\<rparr>" X]
  by (simp add: ged_pairs ged_weights ged_mapping)

theorem store_edge_elements_only_adds_attribute_witness:
  "fit_transform \<lparr>min_intersection = 1, store_edge_elements = True, contract_nodes = True\<rparr>
      [[(0::int, 0::int, [1, 2, 3])], [(0, 1, [3, 4, 5])], [(1, 0, [4, 5])]]
     = Some (Inr \<lparr>vs = [Some \<lparr>pullback_set_label = 0, partial_cluster_label = 0, node_elements = [1, 2, 3]\<rparr>,
                         Some \<lparr>pullback_set_label = 0, partial_cluster_label = 1, node_elements = [3, 4, 5]\<rparr>],
                   es = [\<lparr>endpoints = (0, 1), weight = 1, edge_elements = Some [3]\<rparr>]\<rparr>) \<and>
   fit_transform \<lparr>min_intersection = 1, store_edge_elements = False, contract_nodes = True\<rparr>
      [[(0::int, 0::int, [1, 2, 3])], [(0, 1, [3, 4, 5])], [(1, 0, [4, 5])]]
     = Some (Inr \<lparr>vs = [Some \<lparr>pullback_set_label = 0, partial_cluster_label = 0, node_elements = [1, 2, 3]\<rparr>,
                         Some \<lparr>pullback_set_label = 0, partial_cluster_label = 1, node_elements = [3, 4, 5]\<rparr>],
                   es = [\<lparr>endpoints = (0, 1), weight = 1, edge_elements = None\<rparr>]\<rparr>)"
proof -
  let ?p = "\<lparr>min_intersection = 1, store_edge_elements = True, contract_nodes = True\<rparr>"
  let ?X = "[[(0::int, 0::int, [1, 2, 3])], [(0, 1, [3, 4, 5])], [(1, 0, [4, 5::int])]]"
  have a: "fit_transform (?p\<lparr>store_edge_elements := True\<rparr>) ?X
     = Some (Inr \<lparr>vs = [Some \<lparr>pullback_set_label = 0, partial_cluster_label = 0, node_elements = [1, 2, 3]\<rparr>,
                         Some \<lparr>pullback_set_label = 0, partial_cluster_label = 1, node_elements = [3, 4, 5]\<rparr>],
                   es = [\<lparr>endpoints = (0, 1), weight = 1, edge_elements = Some [3]\<rparr>]\<rparr>)"
    by code_simp
  from store_edge_elements_only_adds_attribute [of ?p "cover_elements ?X" ?X]
  have "map_option (map_sum id drop_edge_elements) (fit_transform (?p\<lparr>store_edge_elements := True\<rparr>) ?X)
     = fit_transform (?p\<lparr>store_edge_elements := False\<rparr>) ?X" by blast
  then have "fit_transform (?p\<lparr>store_edge_elements := False\<rparr>) ?X
     = Some (Inr \<lparr>vs = [Some \<lparr>pullback_set_label = 0, partial_cluster_label = 0, node_elements = [1, 2, 3]\<rparr>,
                         Some \<lparr>pullback_set_label = 0, partial_cluster_label = 1, node_elements = [3, 4, 5]\<rparr>],
                   es = [\<lparr>endpoints = (0, 1), weight = 1, edge_elements = None\<rparr>]\<rparr>)"
    unfolding a by (simp add: drop_edge_elements_def)
  with a show ?thesis by simp
qed

lemma fit_transform_contract:
  assumes "concat X \<noteq> []" and "contract_nodes p"
    and "fixed_points (fold mapping_step (combinations2 (enumerate 0 (cover_elements X)))
            [0..<length (cover_elements X)]) = Some (Inr fpm)"
  shows "fit_transform p X = Some (Inr (delete_vertices
            (filter (\<lambda>i. i \<noteq> fpm ! i) [0..<length (vs (contract_vertices fpm (uncontracted_graph p X)))])
            (contract_vertices fpm (uncontracted_graph p X))))"
  using assms by (simp add: fit_transform_eq)

text \<open>
  Claim C5, amended. On the cover \<open>[[(0, 0, [1, 2])], [(0, 1, [1, 2, 3])]]\<close> with
  \<open>contract_nodes\<close> set, whatever the other two parameters, the graph has one vertex and
  no edge, and the vertex carries the attributes of vertex 0: \<^verbatim>\<open>combine_attrs="first"\<close>
  takes them from the first vertex contracted into the survivor.
\<close>

theorem contraction_scenario_keeps_first_vertex:
  "fit_transform \<lparr>min_intersection = m, store_edge_elements = s, contract_nodes = True\<rparr>
      [[(0::int, 0::int, [1, 2])], [(0, 1, [1, 2, 3])]]
     = Some (Inr \<lparr>vs = [Some \<lparr>pullback_set_label = 0, partial_cluster_label = 0, node_elements = [1, 2]\<rparr>],
                   es = []\<rparr>)"
proof -
  let ?p = "\<lparr>min_intersection = m, store_edge_elements = s, contract_nodes = True\<rparr>"
  let ?X = "[[(0::int, 0::int, [1, 2])], [(0, 1, [1, 2, 3::int])]]"
  let ?G = "\<lparr>vs = [Some \<lparr>pullback_set_label = 0::int, partial_cluster_label = 0::int, node_elements = [1, 2]\<rparr>,
                  Some \<lparr>pullback_set_label = 0, partial_cluster_label = 1, node_elements = [1, 2, 3]\<rparr>],
             es = []\<rparr>"
  have ne: "concat ?X \<noteq> []" by simp
  have cn: "contract_nodes ?p" by simp
  have fp: "fixed_points (fold mapping_step (combinations2 (enumerate 0 (cover_elements ?X)))
            [0..<length (cover_elements ?X)]) = Some (Inr [1, 1])"
    by code_simp
  have ts: "combinations2 (enumerate 0 (cover_elements ?X)) = [((0, [1, 2]), (1, [1, 2, 3]))]"
    by code_simp
  have len: "length (tuple_intersection ((0, [1, 2]), (1, [1, 2, 3]))) = 2" by code_simp
  have me: "\<not> makes_edge True m ((0, [1, 2]), (1, [1, 2, 3]))"
    unfolding makes_edge_def len by simp
  have F: "filter (makes_edge (contract_nodes ?p) (min_intersection ?p))
      (combinations2 (enumerate 0 (cover_elements ?X))) = []"
    unfolding ts using me by simp
  have ug: "uncontracted_graph ?p ?X = ?G"
    unfolding uncontracted_graph_def F by simp
  have dv: "delete_vertices (filter (\<lambda>i. i \<noteq> [1, 1] ! i) [0..<length (vs (contract_vertices [1, 1] ?G))])
      (contract_vertices [1, 1] ?G)
     = \<lparr>vs = [Some \<lparr>pullback_set_label = 0, partial_cluster_label = 0, node_elements = [1, 2]\<rparr>], es = []\<rparr>"
    by code_simp
  show ?thesis
    unfolding fit_transform_contract [OF ne cn fp] ug dv ..
qed

text \<open>
  Claim C5 as stated fails: the surviving vertex does not carry the attributes of
  vertex 1.
\<close>

theorem contraction_scenario_not_second_vertex:
  "fit_transform \<lparr>min_intersection = 1, store_edge_elements = False, contract_nodes = True\<rparr>
      [[(0::int, 0::int, [1, 2])], [(0, 1, [1, 2, 3])]]
     \<noteq> Some (Inr \<lparr>vs = [Some \<lparr>pullback_set_label = 0, partial_cluster_label = 1, node_elements = [1, 2, 3]\<rparr>],
                   es = []\<rparr>)"
  by code_simp

subsection \<open>The contraction mapping\<close>










subsection \<open>\<^verbatim>\<open>_fixed_points\<close> returns\<close>










subsection \<open>What \<^verbatim>\<open>fit_transform\<close> raises\<close>

lemma length_cover_elements: "length (cover_elements X) = length (concat X)"
  by (simp add: cover_elements_def)

lemma fit_transform_contract_eq:
  assumes "concat X \<noteq> []" and "contract_nodes p"
  shows "fit_transform p X =
     (case fixed_points (fold mapping_step (combinations2 (enumerate 0 (cover_elements X)))
                 [0..<length (cover_elements X)]) of
        None \<Rightarrow> None
      | Some (Inl e) \<Rightarrow> Some (Inl e)
      | Some (Inr fpm) \<Rightarrow>
          Some (Inr (delete_vertices
              (filter (\<lambda>i. i \<noteq> fpm ! i) [0..<length (vs (contract_vertices fpm (uncontracted_graph p X)))])
              (contract_vertices fpm (uncontracted_graph p X)))))"
  using assms unfolding fit_transform_eq by (simp only: if_False if_True)

lemma fixed_points_while_result:
  assumes "fixed_points_while mp j k = Some y"
  shows "y \<noteq> Inl StopIteration \<and> (j < length mp \<longrightarrow> (\<forall>r. y = Inr r \<longrightarrow> r < length mp))"
  by (rule fixed_points_while.raw_induct
        [where P = "\<lambda>mp j k y. y \<noteq> Inl StopIteration \<and>
            (j < length mp \<longrightarrow> (\<forall>r. y = Inr r \<longrightarrow> r < length mp))", OF _ assms])
     (auto split: if_splits)

lemma fixed_points_while_no_stop:
  "fixed_points_while mp j k \<noteq> Some (Inl StopIteration)"
  using fixed_points_while_result [of mp j k "Inl StopIteration"] by blast

lemma fixed_points_for_no_stop:
  "fixed_points_for mp js acc \<noteq> Some (Inl StopIteration)"
  using fixed_points_while_no_stop
  by (induction js arbitrary: acc) (auto split: option.splits sum.splits)

lemma fit_transform_empty: "fit_transform p X = Some (Inl StopIteration) \<longleftrightarrow> concat X = []"
proof
  assume a: "fit_transform p X = Some (Inl StopIteration)"
  show "concat X = []"
  proof (rule ccontr)
    assume ne: "concat X \<noteq> []"
    show False
    proof (cases "contract_nodes p")
      case False
      have "fit_transform p X = Some (Inr (uncontracted_graph p X))"
        by (rule fit_transform_plain [OF False ne])
      with a show False by simp
    next
      case True
      let ?mp = "fold mapping_step (combinations2 (enumerate 0 (cover_elements X))) [0..<length (cover_elements X)]"
      have "fixed_points ?mp \<noteq> Some (Inl StopIteration)"
        by (simp add: fixed_points_def fixed_points_for_no_stop)
      with a show False
        unfolding fit_transform_contract_eq [OF ne True]
        by (auto split: option.splits sum.splits)
    qed
  qed
next
  assume "concat X = []"
  then show "fit_transform p X = Some (Inl StopIteration)" by (simp add: fit_transform_eq)
qed





subsection \<open>The vertices after contraction\<close>

lemma fixed_points_for_result:
  assumes "fixed_points_for mp js acc = Some (Inr fpm)"
  shows "\<exists>rs. fpm = acc @ rs \<and> length rs = length js \<and> (\<forall>r\<in>set rs. r < length mp)"
  using assms
proof (induction js arbitrary: acc)
  case Nil
  then show ?case by simp
next
  case (Cons i js)
  from Cons.prems have i: "i < length mp" by (simp split: if_splits)
  from Cons.prems i obtain r where r: "fixed_points_while mp i (mp ! i) = Some (Inr r)"
    and rest: "fixed_points_for mp js (acc @ [r]) = Some (Inr fpm)"
    by (auto split: option.splits sum.splits)
  from fixed_points_while_result [OF r] i have rn: "r < length mp" by blast
  from Cons.IH [OF rest] obtain rs where "fpm = (acc @ [r]) @ rs" "length rs = length js"
    "\<forall>r\<in>set rs. r < length mp" by blast
  with rn show ?case by (intro exI [of _ "r # rs"]) simp
qed

lemma fixed_points_result:
  assumes "fixed_points mp = Some (Inr fpm)"
  shows "length fpm = length mp" and "\<forall>r\<in>set fpm. r < length mp"
  using fixed_points_for_result [OF assms [unfolded fixed_points_def]] by auto

lemma length_mapping_step: "length (mapping_step t mp) = length mp"
  by (simp add: mapping_step_def)

lemma length_fold_mapping_step: "length (fold mapping_step ts mp) = length mp"
  by (induction ts arbitrary: mp) (simp_all add: length_mapping_step)

lemma fold_max_upper: "x \<in> set xs \<Longrightarrow> x \<le> fold max xs (a::nat)"
  unfolding Max.set_eq_fold [symmetric] by (rule Max_ge) auto

lemma fold_max_bound:
  assumes "\<forall>x\<in>set xs. x < n" and "a < n"
  shows "fold max xs (a::nat) < n"
proof -
  have "fold max xs a \<in> set (a # xs)"
    unfolding Max.set_eq_fold [symmetric] by (rule Max_in) auto
  with assms show ?thesis by auto
qed

lemma kept_vertices:
  assumes fpm: "\<forall>r\<in>set fpm. r < length fpm" and ne: "fpm \<noteq> []"
  shows "filter (\<lambda>v. v \<notin> set (filter (\<lambda>i. i \<noteq> fpm ! i) [0..<Suc (fold max fpm 0)]))
            [0..<Suc (fold max fpm 0)]
         = filter (\<lambda>v. fpm ! v = v) [0..<length fpm]"
proof -
  let ?c = "Suc (fold max fpm 0)"
  from ne have pos: "0 < length fpm" by simp
  have le: "?c \<le> length fpm" using fold_max_bound [OF fpm pos] by simp
  have a: "filter (\<lambda>v. v \<notin> set (filter (\<lambda>i. i \<noteq> fpm ! i) [0..<?c])) [0..<?c]
      = filter (\<lambda>v. fpm ! v = v) [0..<?c]"
    by (rule filter_cong) auto
  have "fpm ! v \<noteq> v" if "?c \<le> v" "v < length fpm" for v
  proof -
    have "fpm ! v \<le> fold max fpm 0" using that(2) by (intro fold_max_upper) simp
    with that(1) show ?thesis by simp
  qed
  then have b: "filter (\<lambda>v. fpm ! v = v) [?c..<length fpm] = []"
    by (auto simp: filter_empty_conv)
  have "[0..<length fpm] = [0..<?c] @ [?c..<length fpm]"
    using le by (metis le_add_diff_inverse upt_add_eq_append zero_le)
  then have "filter (\<lambda>v. fpm ! v = v) [0..<length fpm] = filter (\<lambda>v. fpm ! v = v) [0..<?c]"
    using b by simp
  with a show ?thesis by simp
qed

lemma vs_delete_vertices:
  "vs (delete_vertices ids g) = map (\<lambda>v. vs g ! v) (filter (\<lambda>v. v \<notin> set ids) [0..<length (vs g)])"
  by (simp add: delete_vertices_def Let_def)

lemma length_vs_contract:
  "length (vs (contract_vertices mp g)) = (if mp = [] then 0 else Suc (fold max mp 0))"
  by (simp add: contract_vertices_def)

lemma vs_contract_nth:
  assumes "t \<le> fold max mp 0" and "mp \<noteq> []" and "filter (\<lambda>i. mp ! i = t) [0..<length (vs g)] \<noteq> []"
  shows "vs (contract_vertices mp g) ! t = vs g ! hd (filter (\<lambda>i. mp ! i = t) [0..<length (vs g)])"
proof -
  have "t < Suc (fold max mp 0)" using assms(1) by simp
  then have "vs (contract_vertices mp g) ! t =
      (case filter (\<lambda>i. mp ! i = t) [0..<length (vs g)] of [] \<Rightarrow> None | i # _ \<Rightarrow> vs g ! i)"
    using assms(2) unfolding contract_vertices_def
    by (simp del: upt_Suc add: nth_map_upt)
  also have "\<dots> = vs g ! hd (filter (\<lambda>i. mp ! i = t) [0..<length (vs g)])"
    using assms(3) by (cases "filter (\<lambda>i. mp ! i = t) [0..<length (vs g)]") simp_all
  finally show ?thesis .
qed

lemma vs_uncontracted:
  "vs (uncontracted_graph p X) = map (\<lambda>node. Some (vertex_of node)) (concat X)"
  by (simp add: uncontracted_graph_def vertex_of_def case_prod_unfold)

lemma hd_filter_in_range:
  assumes "filter P [0..<n] \<noteq> []"
  shows "hd (filter P [0..<n]) < n"
proof -
  have "hd (filter P [0..<n]) \<in> set (filter P [0..<n])" using assms by (rule hd_in_set)
  then show ?thesis by simp
qed

lemma survivors_rows:
  assumes fp: "fixed_points mp = Some (Inr fpm)" and len: "length mp = length (concat X)"
    and ne: "concat X \<noteq> []"
  shows "vs (delete_vertices
            (filter (\<lambda>i. i \<noteq> fpm ! i) [0..<length (vs (contract_vertices fpm (uncontracted_graph p X)))])
            (contract_vertices fpm (uncontracted_graph p X)))
         = map (\<lambda>v. Some (vertex_of (concat X ! hd (filter (\<lambda>u. fpm ! u = v) [0..<length (concat X)]))))
             (filter (\<lambda>v. fpm ! v = v) [0..<length (concat X)])"
proof -
  let ?G = "uncontracted_graph p X"
  let ?C = "contract_vertices fpm ?G"
  let ?N = "length (concat X)"
  have lf: "length fpm = ?N" using fixed_points_result(1) [OF fp] len by simp
  have rf: "\<forall>r\<in>set fpm. r < length fpm" using fixed_points_result [OF fp] by simp
  have fne: "fpm \<noteq> []" using lf ne by auto
  have lg: "length (vs ?G) = ?N" by (simp add: vs_uncontracted)
  have lc: "length (vs ?C) = Suc (fold max fpm 0)" using fne by (simp add: length_vs_contract)
  have kept: "filter (\<lambda>v. v \<notin> set (filter (\<lambda>i. i \<noteq> fpm ! i) [0..<length (vs ?C)])) [0..<length (vs ?C)]
      = filter (\<lambda>v. fpm ! v = v) [0..<?N]"
    unfolding lc using kept_vertices [OF rf fne] lf by simp
  have row: "vs ?C ! v = Some (vertex_of (concat X ! hd (filter (\<lambda>u. fpm ! u = v) [0..<?N])))"
    if "v \<in> set (filter (\<lambda>v. fpm ! v = v) [0..<?N])" for v
  proof -
    from that have v: "v < ?N" "fpm ! v = v" by simp_all
    have nonempty: "filter (\<lambda>u. fpm ! u = v) [0..<length (vs ?G)] \<noteq> []"
      using v lg by (auto simp: filter_empty_conv)
    have "fpm ! v \<in> set fpm" using v(1) lf by simp
    then have "fpm ! v \<le> fold max fpm 0" by (rule fold_max_upper)
    then have "v \<le> fold max fpm 0" using v(2) by simp
    from vs_contract_nth [OF this fne nonempty]
    have "vs ?C ! v = vs ?G ! hd (filter (\<lambda>u. fpm ! u = v) [0..<?N])" unfolding lg .
    moreover have "hd (filter (\<lambda>u. fpm ! u = v) [0..<?N]) < ?N"
      using nonempty unfolding lg by (rule hd_filter_in_range)
    ultimately show ?thesis by (simp add: vs_uncontracted)
  qed
  show ?thesis
    unfolding vs_delete_vertices kept by (rule map_cong [OF refl row])
qed

text \<open>
  Claim C2. When \<^verbatim>\<open>fit_transform\<close> returns a graph with \<open>contract_nodes\<close> set, its
  vertices are, in increasing order of index, the vertices \<open>v\<close> with
  \<open>fixed_points_mapping[v] = v\<close>, renumbered from 0. The row of attributes that the
  survivor \<open>v\<close> carries is the one of the first vertex that resolves to \<open>v\<close>.
\<close>

theorem survivors_are_fixed_points_in_order:
  assumes "fit_transform p X = Some (Inr g)" and "contract_nodes p"
  shows "\<exists>mp fpm. mapping (generate_edge_data p (cover_elements X)) = Some mp \<and>
           fixed_points mp = Some (Inr fpm) \<and> length fpm = length (concat X) \<and>
           vs g = map (\<lambda>v. Some (vertex_of (concat X ! hd (filter (\<lambda>u. fpm ! u = v) [0..<length (concat X)]))))
                      (filter (\<lambda>v. fpm ! v = v) [0..<length (concat X)])"
proof -
  let ?mp = "fold mapping_step (combinations2 (enumerate 0 (cover_elements X))) [0..<length (cover_elements X)]"
  have ne: "concat X \<noteq> []"
    using assms(1) fit_transform_empty [of p X] by auto
  from assms(1) obtain fpm where fp: "fixed_points ?mp = Some (Inr fpm)"
    and g: "g = delete_vertices
            (filter (\<lambda>i. i \<noteq> fpm ! i) [0..<length (vs (contract_vertices fpm (uncontracted_graph p X)))])
            (contract_vertices fpm (uncontracted_graph p X))"
    unfolding fit_transform_contract_eq [OF ne assms(2)]
    by (auto split: option.splits sum.splits)
  have len: "length ?mp = length (concat X)"
    by (simp add: length_fold_mapping_step length_cover_elements)
  have m: "mapping (generate_edge_data p (cover_elements X)) = Some ?mp"
    using assms(2) by (simp add: ged_mapping)
  have lf: "length fpm = length (concat X)" using fixed_points_result(1) [OF fp] len by simp
  from m fp lf survivors_rows [OF fp len ne, of p] show ?thesis
    unfolding g by blast
qed

theorem survivors_are_fixed_points_in_order_witness:
  "fit_transform \<lparr>min_intersection = 1, store_edge_elements = False, contract_nodes = True\<rparr>
      [[(0::int, 0::int, [1, 2]), (0, 1, [5])], [(1, 0, [1, 2, 3])]]
     = Some (Inr \<lparr>vs = [Some \<lparr>pullback_set_label = 0, partial_cluster_label = 1, node_elements = [5]\<rparr>,
                         Some \<lparr>pullback_set_label = 0, partial_cluster_label = 0, node_elements = [1, 2]\<rparr>],
                   es = []\<rparr>) \<and>
   mapping (generate_edge_data \<lparr>min_intersection = 1, store_edge_elements = False, contract_nodes = True\<rparr>
      (cover_elements [[(0::int, 0::int, [1, 2]), (0, 1, [5])], [(1, 0, [1, 2, 3])]])) = Some [2, 1, 2] \<and>
   fixed_points [2, 1, 2] = Some (Inr [2, 1, 2]) \<and>
   filter (\<lambda>v. [2, 1, 2] ! v = v) [0..<3] = [1, 2] \<and>
   hd (filter (\<lambda>u. [2, 1, 2] ! u = (2::nat)) [0..<3]) = (0::nat) \<and>
   [Some \<lparr>pullback_set_label = 0::int, partial_cluster_label = 1::int, node_elements = [5]\<rparr>,
    Some \<lparr>pullback_set_label = 0, partial_cluster_label = 0, node_elements = [1, 2]\<rparr>]
     = map (\<lambda>v. Some (vertex_of ([(0::int, 0::int, [1, 2]), (0, 1, [5]), (1, 0, [1, 2, 3])]
                ! hd (filter (\<lambda>u. [2, 1, 2] ! u = v) [0..<3]))))
           (filter (\<lambda>v. [2, 1, 2] ! v = v) [0..<3])"
proof -
  let ?p = "\<lparr>min_intersection = 1, store_edge_elements = False, contract_nodes = True\<rparr>"
  let ?X = "[[(0::int, 0::int, [1, 2]), (0, 1, [5])], [(1, 0, [1, 2, 3::int])]]"
  let ?g = "\<lparr>vs = [Some \<lparr>pullback_set_label = 0::int, partial_cluster_label = 1::int, node_elements = [5]\<rparr>,
                  Some \<lparr>pullback_set_label = 0, partial_cluster_label = 0, node_elements = [1, 2]\<rparr>],
             es = []\<rparr>"
  have h: "fit_transform ?p ?X = Some (Inr ?g)" by code_simp
  have cn: "contract_nodes ?p" by simp
  have m: "mapping (generate_edge_data ?p (cover_elements ?X)) = Some [2, 1, 2]" by code_simp
  have f: "fixed_points [2, 1, 2] = Some (Inr [2, 1, 2])" by code_simp
  have s: "filter (\<lambda>v. [2, 1, 2] ! v = v) [0..<3] = [1, 2]" by code_simp
  have hd2: "hd (filter (\<lambda>u. [2, 1, 2] ! u = (2::nat)) [0..<3]) = (0::nat)" by code_simp
  have c: "concat ?X = [(0::int, 0::int, [1, 2]), (0, 1, [5]), (1, 0, [1, 2, 3])]" by simp
  from survivors_are_fixed_points_in_order [OF h cn] obtain mp fpm where a: "mapping (generate_edge_data ?p (cover_elements ?X)) = Some mp"
    "fixed_points mp = Some (Inr fpm)"
    "vs ?g = map (\<lambda>v. Some (vertex_of (concat ?X ! hd (filter (\<lambda>u. fpm ! u = v) [0..<length (concat ?X)]))))
                      (filter (\<lambda>v. fpm ! v = v) [0..<length (concat ?X)])"
    by blast
  from a(1) m have mp: "mp = [2, 1, 2]" by simp
  from a(2) f have fpm: "fpm = [2, 1, 2]" unfolding mp by simp
  have l: "length [(0::int, 0::int, [1, 2::int]), (0, 1, [5]), (1, 0, [1, 2, 3])] = 3" by simp
  from a(3) have "vs ?g = map (\<lambda>v. Some (vertex_of ([(0::int, 0::int, [1, 2]), (0, 1, [5]), (1, 0, [1, 2, 3])]
                ! hd (filter (\<lambda>u. [2, 1, 2] ! u = v) [0..<3]))))
           (filter (\<lambda>v. [2, 1, 2] ! v = v) [0..<3])"
    unfolding fpm c l .
  then have r: "[Some \<lparr>pullback_set_label = 0::int, partial_cluster_label = 1::int, node_elements = [5]\<rparr>,
    Some \<lparr>pullback_set_label = 0, partial_cluster_label = 0, node_elements = [1, 2]\<rparr>]
     = map (\<lambda>v. Some (vertex_of ([(0::int, 0::int, [1, 2]), (0, 1, [5]), (1, 0, [1, 2, 3])]
                ! hd (filter (\<lambda>u. [2, 1, 2] ! u = v) [0..<3]))))
           (filter (\<lambda>v. [2, 1, 2] ! v = v) [0..<3])"
    by (simp only: graph.simps)
  from h m f s hd2 r show ?thesis by (intro conjI)
qed


subsection \<open>The edges after contraction\<close>


















end
